theory Spec2Isabelle
  imports Complex_Main
begin

section \<open>IMU heart-rate estimation: the numeric pipeline of sol\_b.py\<close>

text \<open>
  The pipeline of \<^verbatim>\<open>sol_b.py\<close>: magnitude reduction, Butterworth band-pass filtering,
  windowed spectral peak extraction and conversion of the peak to beats per minute.

  Python floats and NumPy \<^verbatim>\<open>float64\<close> arrays are modelled as \<open>real\<close> and \<open>real list\<close>,
  \<^verbatim>\<open>complex128\<close> as \<open>complex\<close>: rounding, overflow and NaN are outside the model. An
  exception is a value \<open>Inl e\<close> of the result type \<open>error + 'a\<close>.
\<close>

subsection \<open>Exceptions\<close>

text \<open>
  \<open>ValueError\<close>, \<open>ZeroDivisionError\<close> and \<open>IndexError\<close> are the Python exceptions that
  the functions below can raise. The remaining four are the error names of the
  specification's taxonomy; no line of the source raises them, they are here so that
  statements about them can be written.
\<close>

datatype error =
    ValueError
  | ZeroDivisionError
  | IndexError
  | ShapeMismatchError
  | InvalidBandError
  | InsufficientSamplesError
  | NumericInstabilityError

definition bind_err :: "error + 'a \<Rightarrow> ('a \<Rightarrow> error + 'b) \<Rightarrow> error + 'b" where
  "bind_err m f = (case m of Inl e \<Rightarrow> Inl e | Inr v \<Rightarrow> f v)"

subsection \<open>NumPy and SciPy operations used by the source\<close>

text \<open>
  The library calls of the source, by their documented behaviour on one-dimensional
  arrays. A binary elementwise operation broadcasts: equal lengths combine pointwise, a
  length-one operand is stretched to the other's length, any other pair of lengths
  raises \<^verbatim>\<open>ValueError\<close> (operands could not be broadcast together).
\<close>

definition np_broadcast :: "(real \<Rightarrow> real \<Rightarrow> real) \<Rightarrow> real list \<Rightarrow> real list \<Rightarrow> error + real list" where
  "np_broadcast f xs ys =
     (if length xs = length ys then Inr (map2 f xs ys)
      else if length xs = 1 then Inr (map (f (hd xs)) ys)
      else if length ys = 1 then Inr (map (\<lambda>x. f x (hd ys)) xs)
      else Inl ValueError)"

definition np_add :: "real list \<Rightarrow> real list \<Rightarrow> error + real list" where
  "np_add = np_broadcast (+)"

definition np_multiply :: "real list \<Rightarrow> real list \<Rightarrow> error + real list" where
  "np_multiply = np_broadcast (*)"

definition np_square :: "real list \<Rightarrow> real list" where
  \<comment> \<open>\<^verbatim>\<open>a ** 2\<close>\<close>
  "np_square xs = map (\<lambda>v. v ^ 2) xs"

definition np_sqrt :: "real list \<Rightarrow> real list" where
  \<comment> \<open>\<^verbatim>\<open>np.sqrt\<close>; the source only applies it to sums of squares\<close>
  "np_sqrt xs = map sqrt xs"

definition np_abs :: "complex list \<Rightarrow> real list" where
  "np_abs zs = map cmod zs"

text \<open>
  \<^verbatim>\<open>np.hamming(M)\<close>: empty for \<open>M < 1\<close>, \<open>[1.0]\<close> for \<open>M = 1\<close>, and otherwise
  \<^verbatim>\<open>0.54 + 0.46*cos(pi*n/(M-1))\<close> over \<^verbatim>\<open>n = arange(1-M, M, 2)\<close>.
\<close>

definition hamming :: "nat \<Rightarrow> real list" where
  "hamming M =
     (if M < 1 then []
      else if M = 1 then [1]
      else map (\<lambda>i. 0.54 + 0.46 * cos (pi * real_of_int (1 - int M + 2 * int i) / real (M - 1)))
             [0..<M])"

text \<open>
  \<^verbatim>\<open>scipy.fft.fft\<close> of a one-dimensional array: the discrete Fourier transform
  \<open>y[k] = \<Sum>n<N. x[n] * exp (-2\<pi>i k n / N)\<close>; an empty input raises \<^verbatim>\<open>ValueError\<close>.
\<close>

definition dft_bin :: "complex list \<Rightarrow> nat \<Rightarrow> complex" where
  "dft_bin xs k =
     (\<Sum>n\<leftarrow>[0..<length xs]. xs ! n * cis (- 2 * pi * real k * real n / real (length xs)))"

definition fft :: "complex list \<Rightarrow> error + complex list" where
  "fft xs =
     (if length xs < 1 then Inl ValueError
      else Inr (map (dft_bin xs) [0..<length xs]))"

text \<open>
  \<^verbatim>\<open>scipy.fft.fftfreq(n, d)\<close>: with \<^verbatim>\<open>val = 1.0/(n*d)\<close>, the integers
  \<^verbatim>\<open>0 .. (n-1)//2\<close> followed by \<^verbatim>\<open>-(n//2) .. -1\<close>, each times \<^verbatim>\<open>val\<close>.
\<close>

definition fftfreq :: "nat \<Rightarrow> real \<Rightarrow> error + real list" where
  "fftfreq n d =
     (if real n * d = 0 then Inl ZeroDivisionError
      else
        let val = 1 / (real n * d);
            results = [0 .. (int n - 1) div 2] @ [- (int n div 2) .. - 1]
        in Inr (map (\<lambda>k. real_of_int k * val) results))"

text \<open>
  \<^verbatim>\<open>np.argmax\<close> of a one-dimensional array: a scan from the left that moves to a
  new index only on a strictly greater value; an empty array raises \<^verbatim>\<open>ValueError\<close>.
\<close>

fun argmax_scan :: "real list \<Rightarrow> nat \<Rightarrow> nat \<Rightarrow> real \<Rightarrow> nat" where
  "argmax_scan [] i best mp = best"
| "argmax_scan (v # vs) i best mp =
     (if mp < v then argmax_scan vs (Suc i) i v else argmax_scan vs (Suc i) best mp)"

definition argmax :: "real list \<Rightarrow> error + nat" where
  "argmax xs =
     (case xs of
        [] \<Rightarrow> Inl ValueError
      | v # vs \<Rightarrow> Inr (argmax_scan vs 1 0 v))"

text \<open>
  \<^verbatim>\<open>scipy.signal.lfilter(b, a, x)\<close>: the difference equation
  \<^verbatim>\<open>a[0]*y[n] = b[0]*x[n] + ... + b[M]*x[n-M] - a[1]*y[n-1] - ... - a[K]*y[n-K]\<close>,
  run over \<open>x\<close> from its first sample to its last with samples before the start taken
  as zero. \<open>xh\<close> and \<open>yh\<close> hold the inputs and outputs seen so far, newest first.
  For empty coefficient arrays and for \<^verbatim>\<open>a[0] == 0\<close> SciPy gives no filtered
  signal (it raises, or divides by zero); the model returns the error there.
\<close>

definition dot :: "real list \<Rightarrow> real list \<Rightarrow> real" where
  "dot cs hs = (\<Sum>(c, h)\<leftarrow>zip cs hs. c * h)"

fun lfilter_run :: "real list \<Rightarrow> real list \<Rightarrow> real list \<Rightarrow> real list \<Rightarrow> real list \<Rightarrow> real list" where
  "lfilter_run b a xh yh [] = []"
| "lfilter_run b a xh yh (x # xs) =
     (let y = (dot b (x # xh) - dot (tl a) yh) / hd a
      in y # lfilter_run b a (x # xh) (y # yh) xs)"

definition lfilter :: "real list \<Rightarrow> real list \<Rightarrow> real list \<Rightarrow> error + real list" where
  "lfilter b a x =
     (if a = [] \<or> b = [] then Inl ValueError
      else if hd a = 0 then Inl ValueError
      else Inr (lfilter_run b a [] [] x))"

text \<open>
  \<^verbatim>\<open>scipy.signal.butter(order, [low, high], btype='band')\<close> is a parameter of
  the model: the Butterworth design (and its own validation of the order and of the
  normalised band) is SciPy's and not part of the source.
\<close>

type_synonym butter_design = "int \<Rightarrow> real list \<Rightarrow> error + (real list \<times> real list)"

definition butter_unit :: butter_design where
  \<comment> \<open>a stand-in design for concrete runs: the pass-through filter \<open>b = [1], a = [1]\<close>\<close>
  "butter_unit order Wn = Inr ([1], [1])"

subsection \<open>The functions of the source\<close>

text \<open>\<^verbatim>\<open>calculate_magnitude(x, y, z)\<close>, lines 36-39.\<close>

definition calculate_magnitude :: "real list \<Rightarrow> real list \<Rightarrow> real list \<Rightarrow> error + real list" where
  "calculate_magnitude x y z =
     bind_err (np_add (np_square x) (np_square y)) (\<lambda>xy.
     bind_err (np_add xy (np_square z)) (\<lambda>xyz.
     Inr (np_sqrt xyz)))"

text \<open>
  \<^verbatim>\<open>butter_bandpass(cutoff, fs, order=5)\<close>, lines 41-47. \<open>cutoff\<close> is a Python
  list: indexing it out of range raises \<^verbatim>\<open>IndexError\<close>, and the float division by
  \<open>nyq = 0.5 * fs\<close> raises \<^verbatim>\<open>ZeroDivisionError\<close> when \<open>fs\<close> is zero.
\<close>

definition py_index :: "'a list \<Rightarrow> nat \<Rightarrow> error + 'a" where
  "py_index xs i = (if i < length xs then Inr (xs ! i) else Inl IndexError)"

definition py_div :: "real \<Rightarrow> real \<Rightarrow> error + real" where
  "py_div p q = (if q = 0 then Inl ZeroDivisionError else Inr (p / q))"

definition butter_bandpass :: "butter_design \<Rightarrow> real list \<Rightarrow> real \<Rightarrow> int \<Rightarrow> error + (real list \<times> real list)" where
  "butter_bandpass butter cutoff fs order =
     (let nyq = 0.5 * fs in
      bind_err (py_index cutoff 0) (\<lambda>c0.
      bind_err (py_div c0 nyq) (\<lambda>low.
      bind_err (py_index cutoff 1) (\<lambda>c1.
      bind_err (py_div c1 nyq) (\<lambda>high.
      butter order [low, high])))))"

text \<open>\<^verbatim>\<open>apply_filter(data, b, a)\<close>, lines 49-52.\<close>

definition apply_filter :: "real list \<Rightarrow> real list \<Rightarrow> real list \<Rightarrow> error + real list" where
  "apply_filter data b a = lfilter b a data"

text \<open>\<^verbatim>\<open>stft_analysis(data, fs)\<close>, lines 54-65.\<close>

definition stft_analysis :: "real list \<Rightarrow> real \<Rightarrow> error + real" where
  "stft_analysis data fs =
     (let N = length data;
          window = hamming N in
      bind_err (np_multiply data window) (\<lambda>dw.
      bind_err (fft (map complex_of_real dw)) (\<lambda>yf.
      bind_err (py_div 1 fs) (\<lambda>d.
      bind_err (fftfreq N d) (\<lambda>xf.
      let positive_frequencies = take (N div 2) xf;
          magnitudes = np_abs (take (N div 2) yf) in
      bind_err (argmax (drop 1 magnitudes)) (\<lambda>i.
      let dominant_frequency_index = i + 1 in
      py_index positive_frequencies dominant_frequency_index))))))"

text \<open>\<^verbatim>\<open>calculate_heart_rate(dominant_frequency)\<close>, lines 67-70.\<close>

definition calculate_heart_rate :: "real \<Rightarrow> real" where
  "calculate_heart_rate dominant_frequency = dominant_frequency * 60"

text \<open>
  The body of the \<^verbatim>\<open>try\<close> block of the script, lines 76-92, from the three decoded
  channels on (reading the file and plotting are left out): \<open>fs = 100\<close>,
  \<open>cutoff = [0.5, 3]\<close>, \<open>order = 5\<close>. The result is the pair of numbers handed to the
  two \<^verbatim>\<open>print\<close> calls, before their formatting to two decimals:
  \<open>dominant_frequency\<close> and \<open>heart_rate / 2\<close>.
\<close>

definition main_report :: "butter_design \<Rightarrow> real list \<Rightarrow> real list \<Rightarrow> real list \<Rightarrow> error + (real \<times> real)" where
  "main_report butter x y z =
     (let fs = 100 in
      bind_err (calculate_magnitude x y z) (\<lambda>magnitude.
      let cutoff = [0.5, 3] in
      bind_err (butter_bandpass butter cutoff fs 5) (\<lambda>(b, a).
      bind_err (apply_filter magnitude b a) (\<lambda>filtered_magnitude.
      bind_err (stft_analysis filtered_magnitude fs) (\<lambda>dominant_frequency.
      let heart_rate = calculate_heart_rate dominant_frequency in
      Inr (dominant_frequency, heart_rate / 2))))))"

subsection \<open>The specification's wording of the spectrum\<close>

text \<open>
  The window and the spectrum as the specification words them, for comparison with
  the source: the raised-cosine taper \<open>0.54 - 0.46 cos (2\<pi> i / (N - 1))\<close>, and the
  magnitude of bin \<open>k\<close> of the discrete Fourier transform of the windowed signal.
\<close>

definition spec_window :: "nat \<Rightarrow> nat \<Rightarrow> real" where
  "spec_window N i = 0.54 - 0.46 * cos (2 * pi * real i / real (N - 1))"

definition spec_magnitude :: "real list \<Rightarrow> nat \<Rightarrow> real" where
  "spec_magnitude data k =
     cmod (\<Sum>n<length data. complex_of_real (data ! n * spec_window (length data) n)
                              * cis (- 2 * pi * real k * real n / real (length data)))"

section \<open>Auxiliary facts\<close>

subsection \<open>Error propagation, broadcasting, the window\<close>

lemma bind_err_simps [simp]:
  "bind_err (Inr v) f = f v"
  "bind_err (Inl e) f = Inl e"
  by (simp_all add: bind_err_def)

lemma np_broadcast_same:
  "length xs = length ys \<Longrightarrow> np_broadcast f xs ys = Inr (map2 f xs ys)"
  by (simp add: np_broadcast_def)

lemma hamming_length: "length (hamming M) = M"
  by (simp add: hamming_def)

lemma hamming_nth:
  assumes "2 \<le> M" "i < M"
  shows "hamming M ! i = 0.54 - 0.46 * cos (2 * pi * real i / real (M - 1))"
proof -
  have "pi * real_of_int (1 - int M + 2 * int i) / real (M - 1)
        = 2 * pi * real i / real (M - 1) - pi"
    using assms by (simp add: field_simps of_nat_diff)
  then have "cos (pi * real_of_int (1 - int M + 2 * int i) / real (M - 1))
        = - cos (2 * pi * real i / real (M - 1))"
    by (simp add: cos_diff)
  then show ?thesis using assms by (simp add: hamming_def)
qed

subsection \<open>The first-maximum scan\<close>

lemma argmax_scan_spec:
  "argmax_scan vs i best mp = r \<Longrightarrow>
   (r = best \<and> (\<forall>v\<in>set vs. v \<le> mp))
   \<or> (\<exists>d. r = i + d \<and> d < length vs \<and> mp < vs ! d
          \<and> (\<forall>j<length vs. vs ! j \<le> vs ! d) \<and> (\<forall>j<d. vs ! j < vs ! d))"
proof (induction vs arbitrary: i best mp)
  case Nil
  then show ?case by simp
next
  case (Cons v vs)
  show ?case
  proof (cases "mp < v")
    case True
    then have run: "argmax_scan vs (Suc i) i v = r" using Cons.prems by simp
    from Cons.IH[OF run] show ?thesis
    proof (elim disjE exE conjE)
      assume h: "r = i" "\<forall>w\<in>set vs. w \<le> v"
      have "\<forall>j<length (v # vs). (v # vs) ! j \<le> v"
        using h by (auto simp: nth_Cons split: nat.splits)
      with True h have "r = i + 0 \<and> 0 < length (v # vs) \<and> mp < (v # vs) ! 0
          \<and> (\<forall>j<length (v # vs). (v # vs) ! j \<le> (v # vs) ! 0) \<and> (\<forall>j<0. (v # vs) ! j < (v # vs) ! 0)"
        by simp
      then show ?thesis by blast
    next
      fix d assume h: "r = Suc i + d" "d < length vs" "v < vs ! d"
        "\<forall>j<length vs. vs ! j \<le> vs ! d" "\<forall>j<d. vs ! j < vs ! d"
      have "\<forall>j<length (v # vs). (v # vs) ! j \<le> vs ! d"
        using h by (auto simp: nth_Cons split: nat.splits)
      moreover have "\<forall>j<Suc d. (v # vs) ! j < vs ! d"
        using h by (auto simp: nth_Cons split: nat.splits)
      ultimately have "r = i + Suc d \<and> Suc d < length (v # vs) \<and> mp < (v # vs) ! Suc d
          \<and> (\<forall>j<length (v # vs). (v # vs) ! j \<le> (v # vs) ! Suc d)
          \<and> (\<forall>j<Suc d. (v # vs) ! j < (v # vs) ! Suc d)"
        using True h by simp
      then show ?thesis by blast
    qed
  next
    case False
    then have run: "argmax_scan vs (Suc i) best mp = r" using Cons.prems by simp
    from Cons.IH[OF run] show ?thesis
    proof (elim disjE exE conjE)
      assume h: "r = best" "\<forall>w\<in>set vs. w \<le> mp"
      with False show ?thesis by simp
    next
      fix d assume h: "r = Suc i + d" "d < length vs" "mp < vs ! d"
        "\<forall>j<length vs. vs ! j \<le> vs ! d" "\<forall>j<d. vs ! j < vs ! d"
      have "\<forall>j<length (v # vs). (v # vs) ! j \<le> vs ! d"
        using h False by (auto simp: nth_Cons split: nat.splits)
      moreover have "\<forall>j<Suc d. (v # vs) ! j < vs ! d"
        using h False by (auto simp: nth_Cons split: nat.splits)
      ultimately have "r = i + Suc d \<and> Suc d < length (v # vs) \<and> mp < (v # vs) ! Suc d
          \<and> (\<forall>j<length (v # vs). (v # vs) ! j \<le> (v # vs) ! Suc d)
          \<and> (\<forall>j<Suc d. (v # vs) ! j < (v # vs) ! Suc d)"
        using h by simp
      then show ?thesis by blast
    qed
  qed
qed

lemma argmax_spec:
  assumes "xs \<noteq> []"
  shows "\<exists>r. argmax xs = Inr r \<and> r < length xs
           \<and> (\<forall>j<length xs. xs ! j \<le> xs ! r) \<and> (\<forall>j<r. xs ! j < xs ! r)"
proof -
  obtain v vs where xs: "xs = v # vs" using assms by (cases xs) auto
  define r where "r = argmax_scan vs 1 0 v"
  have ar: "argmax xs = Inr r" by (simp add: argmax_def xs r_def)
  have run: "argmax_scan vs 1 0 v = r" by (simp add: r_def)
  from argmax_scan_spec[OF run]
  have "r < length xs \<and> (\<forall>j<length xs. xs ! j \<le> xs ! r) \<and> (\<forall>j<r. xs ! j < xs ! r)"
  proof (elim disjE exE conjE)
    assume "r = 0" "\<forall>w\<in>set vs. w \<le> v"
    then show ?thesis unfolding xs
      by (auto simp: nth_Cons split: nat.splits)
  next
    fix d assume "r = 1 + d" "d < length vs" "v < vs ! d"
        "\<forall>j<length vs. vs ! j \<le> vs ! d" "\<forall>j<d. vs ! j < vs ! d"
    then show ?thesis unfolding xs
      by (auto simp: nth_Cons split: nat.splits)
  qed
  with ar show ?thesis by blast
qed

subsection \<open>The spectrum of the windowed signal and its frequency bins\<close>

lemma windowed_nth:
  assumes "2 \<le> length data" "n < length data"
  shows "map2 (*) data (hamming (length data)) ! n = data ! n * spec_window (length data) n"
  using assms by (simp add: hamming_length hamming_nth spec_window_def)

lemma dft_bin_sum:
  "dft_bin xs k = (\<Sum>n<length xs. xs ! n * cis (- 2 * pi * real k * real n / real (length xs)))"
  unfolding dft_bin_def
  by (simp add: interv_sum_list_conv_sum_set_nat atLeast0LessThan)

lemma magnitude_windowed:
  assumes "2 \<le> length data"
  shows "cmod (dft_bin (map complex_of_real (map2 (*) data (hamming (length data)))) k)
         = spec_magnitude data k"
proof -
  have len: "length (map complex_of_real (map2 (*) data (hamming (length data)))) = length data"
    by (simp add: hamming_length)
  have "(\<Sum>n<length data. map complex_of_real (map2 (*) data (hamming (length data))) ! n
            * cis (- 2 * pi * real k * real n / real (length data)))
      = (\<Sum>n<length data. complex_of_real (data ! n * spec_window (length data) n)
            * cis (- 2 * pi * real k * real n / real (length data)))"
  proof (rule sum.cong)
    fix n assume "n \<in> {..<length data}"
    then have n: "n < length data" by simp
    then have "map complex_of_real (map2 (*) data (hamming (length data))) ! n
        = complex_of_real (map2 (*) data (hamming (length data)) ! n)"
      by (simp add: hamming_length)
    also have "\<dots> = complex_of_real (data ! n * spec_window (length data) n)"
      using windowed_nth[OF assms n] by simp
    finally show "map complex_of_real (map2 (*) data (hamming (length data))) ! n
            * cis (- 2 * pi * real k * real n / real (length data))
       = complex_of_real (data ! n * spec_window (length data) n)
            * cis (- 2 * pi * real k * real n / real (length data))" by simp
  qed simp
  then show ?thesis
    unfolding spec_magnitude_def dft_bin_sum len by simp
qed

lemma upto_from_zero: "[0 .. int m] = map int [0..<Suc m]"
proof (induction m)
  case 0
  then show ?case by (simp add: upto.simps)
next
  case (Suc m)
  have "[0 .. int (Suc m)] = [0 .. int m] @ [int (Suc m)]"
    using upto_rec2[of 0 "int (Suc m)"] by simp
  with Suc show ?case by simp
qed

lemma fftfreq_positive_half:
  assumes "1 \<le> n" "d \<noteq> 0"
  shows "\<exists>xf. fftfreq n d = Inr xf \<and> length (take (n div 2) xf) = n div 2
            \<and> (\<forall>k<n div 2. take (n div 2) xf ! k = real k * (1 / (real n * d)))"
proof -
  obtain m where m: "(int n - 1) div 2 = int m" and mn: "n div 2 \<le> Suc m"
  proof -
    have "0 \<le> (int n - 1) div 2" using assms by simp
    then obtain m where m: "(int n - 1) div 2 = int m" using nonneg_int_cases by blast
    have "int (n div 2) \<le> int m + 1" using m by (simp add: zdiv_int)
    then have "n div 2 \<le> Suc m" by linarith
    with m show ?thesis using that by blast
  qed
  define xf where "xf = map (\<lambda>k. real_of_int k * (1 / (real n * d))) ([0 .. (int n - 1) div 2] @ [- (int n div 2) .. - 1])"
  have nd: "real n * d \<noteq> 0" using assms by simp
  have ff: "fftfreq n d = Inr xf" using nd by (simp add: fftfreq_def xf_def Let_def)
  have tk: "take (n div 2) xf = map (\<lambda>k. real k * (1 / (real n * d))) [0..<n div 2]"
  proof -
    have A: "[0 .. (int n - 1) div 2] = map int [0..<Suc m]"
      by (simp only: m upto_from_zero)
    have "take (n div 2) ([0 .. (int n - 1) div 2] @ [- (int n div 2) .. - 1])
          = take (n div 2) (map int [0..<Suc m])"
      using mn by (simp add: A del: upt_Suc)
    also have "\<dots> = map int [0..<n div 2]"
      using mn by (simp add: take_map min_def del: upt_Suc)
    finally have "take (n div 2) xf
        = map (\<lambda>k. real_of_int k * (1 / (real n * d))) (map int [0..<n div 2])"
      unfolding xf_def take_map by simp
    then show ?thesis by (simp add: comp_def)
  qed
  have "length (take (n div 2) xf) = n div 2"
    by (simp only: tk length_map length_upt diff_zero)
  moreover have "\<forall>k<n div 2. take (n div 2) xf ! k = real k * (1 / (real n * d))"
    by (simp only: tk) simp
  ultimately show ?thesis using ff by blast
qed

subsection \<open>The spectral peak extractor, case by case\<close>

lemma stft_analysis_long:
  assumes N: "4 \<le> length data" and fs: "fs \<noteq> 0"
  shows "\<exists>k. stft_analysis data fs = Inr (real k * fs / real (length data))
           \<and> 1 \<le> k \<and> k \<le> length data div 2 - 1
           \<and> (\<forall>j. 1 \<le> j \<and> j \<le> length data div 2 - 1 \<longrightarrow> spec_magnitude data j \<le> spec_magnitude data k)
           \<and> (\<forall>j. 1 \<le> j \<and> j < k \<longrightarrow> spec_magnitude data j < spec_magnitude data k)"
proof -
  define N where "N = length data"
  define dw where "dw = map2 (*) data (hamming N)"
  define yf where "yf = map (dft_bin (map complex_of_real dw)) [0..<N]"
  define magnitudes where "magnitudes = np_abs (take (N div 2) yf)"
  have N4: "4 \<le> N" using N by (simp add: N_def)
  have s1: "np_multiply data (hamming N) = Inr dw"
    by (simp add: np_multiply_def np_broadcast_same hamming_length N_def dw_def)
  have ldw: "length dw = N" by (simp add: dw_def hamming_length N_def)
  have s2: "fft (map complex_of_real dw) = Inr yf"
    using N4 by (simp add: fft_def ldw yf_def)
  have s3: "py_div 1 fs = Inr (1 / fs)" using fs by (simp add: py_div_def)
  obtain xf where s4: "fftfreq N (1 / fs) = Inr xf"
    and lpf: "length (take (N div 2) xf) = N div 2"
    and pf: "\<forall>k<N div 2. take (N div 2) xf ! k = real k * (1 / (real N * (1 / fs)))"
    using fftfreq_positive_half[of N "1 / fs"] N4 fs by auto
  have lm: "length magnitudes = N div 2" by (simp add: magnitudes_def np_abs_def yf_def)
  have mag: "magnitudes ! k = spec_magnitude data k" if "k < N div 2" for k
  proof -
    have "k < N" using that by simp
    then have "magnitudes ! k = cmod (dft_bin (map complex_of_real dw) k)"
      using that by (simp add: magnitudes_def np_abs_def yf_def)
    then show ?thesis using magnitude_windowed[of data k] N4 by (simp add: dw_def N_def)
  qed
  have ne: "drop 1 magnitudes \<noteq> []" using lm N4 by simp
  obtain r where s5: "argmax (drop 1 magnitudes) = Inr r"
    and r: "r < length (drop 1 magnitudes)"
    and rmax: "\<forall>j<length (drop 1 magnitudes). drop 1 magnitudes ! j \<le> drop 1 magnitudes ! r"
    and rfirst: "\<forall>j<r. drop 1 magnitudes ! j < drop 1 magnitudes ! r"
    using argmax_spec[OF ne] by blast
  have rN: "Suc r < N div 2" using r lm by simp
  have dn: "drop 1 magnitudes ! j = spec_magnitude data (Suc j)" if "Suc j < N div 2" for j
    using that lm mag by simp
  have res: "stft_analysis data fs = Inr (real (Suc r) * fs / real N)"
  proof -
    have "stft_analysis data fs = py_index (take (N div 2) xf) (r + 1)"
      unfolding stft_analysis_def Let_def N_def[symmetric]
      using s1 s2 s3 s4 s5 by (simp add: magnitudes_def)
    also have "\<dots> = Inr (take (N div 2) xf ! Suc r)"
      using rN lpf by (simp add: py_index_def)
    also have "take (N div 2) xf ! Suc r = real (Suc r) * fs / real N"
      using pf rN fs by simp
    finally show ?thesis .
  qed
  have a: "\<forall>j. 1 \<le> j \<and> j \<le> N div 2 - 1 \<longrightarrow> spec_magnitude data j \<le> spec_magnitude data (Suc r)"
  proof (intro allI impI)
    fix j assume j: "1 \<le> j \<and> j \<le> N div 2 - 1"
    then obtain j' where j': "j = Suc j'" by (cases j) auto
    have "j' < length (drop 1 magnitudes)" using j j' lm by simp
    then have "drop 1 magnitudes ! j' \<le> drop 1 magnitudes ! r" using rmax by blast
    then show "spec_magnitude data j \<le> spec_magnitude data (Suc r)"
      using dn[of j'] dn[of r] rN j j' by simp
  qed
  have b: "\<forall>j. 1 \<le> j \<and> j < Suc r \<longrightarrow> spec_magnitude data j < spec_magnitude data (Suc r)"
  proof (intro allI impI)
    fix j assume j: "1 \<le> j \<and> j < Suc r"
    then obtain j' where j': "j = Suc j'" by (cases j) auto
    have "j' < r" using j j' by simp
    then have "drop 1 magnitudes ! j' < drop 1 magnitudes ! r" using rfirst by blast
    then show "spec_magnitude data j < spec_magnitude data (Suc r)"
      using dn[of j'] dn[of r] rN j j' by simp
  qed
  have "1 \<le> Suc r \<and> Suc r \<le> N div 2 - 1" using rN by simp
  with res a b show ?thesis unfolding N_def by blast
qed

lemma stft_analysis_short:
  assumes "length data < 4" "fs \<noteq> 0"
  shows "stft_analysis data fs = Inl ValueError"
proof (cases "data = []")
  case True
  then show ?thesis
    by (simp add: stft_analysis_def hamming_def np_multiply_def np_broadcast_def fft_def)
next
  case False
  define N where "N = length data"
  define dw where "dw = map2 (*) data (hamming N)"
  define yf where "yf = map (dft_bin (map complex_of_real dw)) [0..<N]"
  have N1: "1 \<le> N" "N < 4" using False assms by (simp_all add: N_def Suc_le_eq)
  have s1: "np_multiply data (hamming N) = Inr dw"
    by (simp add: np_multiply_def np_broadcast_same hamming_length N_def dw_def)
  have ldw: "length dw = N" by (simp add: dw_def hamming_length N_def)
  have s2: "fft (map complex_of_real dw) = Inr yf"
    using N1 by (simp add: fft_def ldw yf_def)
  have s3: "py_div 1 fs = Inr (1 / fs)" using assms by (simp add: py_div_def)
  obtain xf where s4: "fftfreq N (1 / fs) = Inr xf"
    using fftfreq_positive_half[of N "1 / fs"] N1 assms by auto
  have "N div 2 \<le> 1" using N1 by simp
  then have "drop 1 (np_abs (take (N div 2) yf)) = []"
    by (simp add: np_abs_def)
  then have s5: "argmax (drop 1 (np_abs (take (N div 2) yf))) = Inl ValueError"
    by (simp add: argmax_def)
  show ?thesis
    unfolding stft_analysis_def Let_def N_def[symmetric]
    using s1 s2 s3 s4 s5 by simp
qed

lemma stft_analysis_fs_zero:
  "stft_analysis data 0 = (if data = [] then Inl ValueError else Inl ZeroDivisionError)"
proof (cases "data = []")
  case True
  then show ?thesis
    by (simp add: stft_analysis_def hamming_def np_multiply_def np_broadcast_def fft_def)
next
  case False
  define N where "N = length data"
  define dw where "dw = map2 (*) data (hamming N)"
  have N1: "1 \<le> N" using False by (simp add: N_def Suc_le_eq)
  have s1: "np_multiply data (hamming N) = Inr dw"
    by (simp add: np_multiply_def np_broadcast_same hamming_length N_def dw_def)
  have ldw: "length dw = N" by (simp add: dw_def hamming_length N_def)
  have s2: "fft (map complex_of_real dw) = Inr (map (dft_bin (map complex_of_real dw)) [0..<N])"
    using N1 by (simp add: fft_def ldw)
  have s3: "py_div 1 0 = Inl ZeroDivisionError" by (simp add: py_div_def)
  show ?thesis
    unfolding stft_analysis_def Let_def N_def[symmetric]
    using s1 s2 s3 False by simp
qed

lemma spec_magnitude_zero:
  assumes "\<forall>n<length data. data ! n * spec_window (length data) n = 0"
  shows "spec_magnitude data k = 0"
proof -
  have "(\<Sum>n<length data. complex_of_real (data ! n * spec_window (length data) n)
                              * cis (- 2 * pi * real k * real n / real (length data))) = 0"
  proof (rule sum.neutral, rule ballI)
    fix n assume "n \<in> {..<length data}"
    then have "data ! n * spec_window (length data) n = 0" using assms by simp
    then show "complex_of_real (data ! n * spec_window (length data) n)
                 * cis (- 2 * pi * real k * real n / real (length data)) = 0"
      by (simp only: of_real_0 mult_zero_left)
  qed
  then show ?thesis unfolding spec_magnitude_def by (simp only: norm_zero)
qed

lemma stft_analysis_flat:
  assumes "4 \<le> length data" "fs \<noteq> 0"
    and "\<forall>n<length data. data ! n * spec_window (length data) n = 0"
  shows "stft_analysis data fs = Inr (fs / real (length data))"
proof -
  obtain k where k: "stft_analysis data fs = Inr (real k * fs / real (length data))"
    "1 \<le> k" "\<forall>j. 1 \<le> j \<and> j < k \<longrightarrow> spec_magnitude data j < spec_magnitude data k"
    using stft_analysis_long[OF assms(1,2)] by blast
  have "k = 1"
  proof (rule ccontr)
    assume "k \<noteq> 1"
    then have "1 \<le> (1::nat) \<and> 1 < k" using k(2) by simp
    then have "spec_magnitude data 1 < spec_magnitude data k" using k(3) by blast
    then show False by (simp add: spec_magnitude_zero[OF assms(3)])
  qed
  with k(1) show ?thesis by simp
qed

lemma stft_analysis_zeros:
  assumes "4 \<le> N" "fs \<noteq> 0"
  shows "stft_analysis (replicate N 0) fs = Inr (fs / real N)"
  using stft_analysis_flat[of "replicate N 0" fs] assms by simp


subsection \<open>Broadcast additions\<close>

lemma np_add_same:
  "length xs = length ys \<Longrightarrow> np_add xs ys = Inr (map2 (+) xs ys)"
  by (simp add: np_add_def np_broadcast_same)

lemma np_broadcast_length:
  "np_broadcast f xs ys = Inr r \<Longrightarrow>
   length r = (if length xs = 1 then length ys else length xs)"
  by (auto simp: np_broadcast_def split: if_splits)

lemma np_broadcast_error:
  "np_broadcast f xs ys = Inl e \<longleftrightarrow>
   e = ValueError \<and> length xs \<noteq> length ys \<and> length xs \<noteq> 1 \<and> length ys \<noteq> 1"
  by (auto simp: np_broadcast_def split: if_splits)

subsection \<open>The recursive filter\<close>

lemma lfilter_run_length: "length (lfilter_run b a xh yh xs) = length xs"
  by (induction xs arbitrary: xh yh) (simp_all add: Let_def)

lemma lfilter_run_take:
  "lfilter_run b a xh yh (take m xs) = take m (lfilter_run b a xh yh xs)"
proof (induction xs arbitrary: m xh yh)
  case Nil
  then show ?case by simp
next
  case (Cons x xs)
  then show ?case by (cases m) (simp_all add: Let_def)
qed

lemma lfilter_run_nth:
  "n < length xs \<Longrightarrow>
   lfilter_run b a xh yh xs ! n
     = (dot b (rev (take (Suc n) xs) @ xh)
        - dot (tl a) (rev (take n (lfilter_run b a xh yh xs)) @ yh)) / hd a"
proof (induction xs arbitrary: n xh yh)
  case Nil
  then show ?case by simp
next
  case (Cons x xs)
  show ?case
  proof (cases n)
    case 0
    then show ?thesis by (simp add: Let_def)
  next
    case (Suc n')
    then have "n' < length xs" using Cons.prems by simp
    from Cons.IH[OF this] show ?thesis
      unfolding Suc by (simp add: Let_def)
  qed
qed

lemma dot_sum: "dot cs hs = (\<Sum>i<min (length cs) (length hs). cs ! i * hs ! i)"
proof -
  have "dot cs hs = (\<Sum>i = 0..<length (zip cs hs). map (\<lambda>(c, h). c * h) (zip cs hs) ! i)"
    unfolding dot_def by (simp only: sum_list_sum_nth length_map)
  also have "\<dots> = (\<Sum>i = 0..<length (zip cs hs). cs ! i * hs ! i)"
    by (rule sum.cong) simp_all
  finally show ?thesis by (simp add: atLeast0LessThan)
qed

lemma dot_rev_take:
  assumes "n \<le> length hs"
  shows "dot cs (rev (take n hs)) = (\<Sum>i<length cs. if i < n then cs ! i * hs ! (n - Suc i) else 0)"
proof -
  have len: "length (rev (take n hs)) = n" using assms by simp
  have "dot cs (rev (take n hs)) = (\<Sum>i<min (length cs) n. cs ! i * rev (take n hs) ! i)"
    by (simp only: dot_sum len)
  also have "\<dots> = (\<Sum>i<min (length cs) n. cs ! i * hs ! (n - Suc i))"
  proof (rule sum.cong)
    fix i assume "i \<in> {..<min (length cs) n}"
    then have "i < n" by simp
    then have "rev (take n hs) ! i = hs ! (n - Suc i)"
      using assms by (simp add: rev_nth)
    then show "cs ! i * rev (take n hs) ! i = cs ! i * hs ! (n - Suc i)" by simp
  qed simp
  also have "\<dots> = (\<Sum>i\<in>{..<length cs} \<inter> {i. i < n}. cs ! i * hs ! (n - Suc i))"
  proof -
    have "{..<min (length cs) n} = {..<length cs} \<inter> {i. i < n}" by auto
    then show ?thesis by simp
  qed
  also have "\<dots> = (\<Sum>i<length cs. if i < n then cs ! i * hs ! (n - Suc i) else 0)"
    by (simp add: sum.inter_restrict)
  finally show ?thesis .
qed

lemma lfilter_difference_equation:
  assumes a: "a \<noteq> []" and a0: "hd a \<noteq> 0" and n: "n < length x"
  shows "hd a * lfilter_run b a [] [] x ! n
         = (\<Sum>i<length b. if i \<le> n then b ! i * x ! (n - i) else 0)
           - (\<Sum>j\<in>{1..<length a}. if j \<le> n then a ! j * lfilter_run b a [] [] x ! (n - j) else 0)"
proof -
  define y where "y = lfilter_run b a [] [] x"
  have ly: "length y = length x" by (simp add: y_def lfilter_run_length)
  have "y ! n = (dot b (rev (take (Suc n) x)) - dot (tl a) (rev (take n y))) / hd a"
    using lfilter_run_nth[OF n, of b a "[]" "[]"] by (simp add: y_def)
  then have eq: "hd a * y ! n = dot b (rev (take (Suc n) x)) - dot (tl a) (rev (take n y))"
    using a0 by simp
  have fb: "dot b (rev (take (Suc n) x)) = (\<Sum>i<length b. if i \<le> n then b ! i * x ! (n - i) else 0)"
  proof -
    have "Suc n \<le> length x" using n by simp
    from dot_rev_take[OF this, of b]
    have "dot b (rev (take (Suc n) x))
          = (\<Sum>i<length b. if i < Suc n then b ! i * x ! (Suc n - Suc i) else 0)" .
    also have "\<dots> = (\<Sum>i<length b. if i \<le> n then b ! i * x ! (n - i) else 0)"
      by (rule sum.cong) (simp_all add: less_Suc_eq_le)
    finally show ?thesis .
  qed
  have la: "{Suc 0..<Suc (length (tl a))} = {1..<length a}" using a by simp
  have "dot (tl a) (rev (take n y))
        = (\<Sum>i<length (tl a). if i < n then tl a ! i * y ! (n - Suc i) else 0)"
    using dot_rev_take[of n y "tl a"] n ly by simp
  also have "\<dots> = (\<Sum>i<length (tl a). if Suc i \<le> n then a ! Suc i * y ! (n - Suc i) else 0)"
  proof (rule sum.cong)
    fix i assume "i \<in> {..<length (tl a)}"
    then have "tl a ! i = a ! Suc i" by (simp add: nth_tl)
    then show "(if i < n then tl a ! i * y ! (n - Suc i) else 0)
             = (if Suc i \<le> n then a ! Suc i * y ! (n - Suc i) else 0)"
      by (simp add: Suc_le_eq)
  qed simp
  also have "\<dots> = (\<Sum>j\<in>{Suc 0..<Suc (length (tl a))}. if j \<le> n then a ! j * y ! (n - j) else 0)"
    by (simp only: sum.shift_bounds_Suc_ivl atLeast0LessThan)
  finally have fa: "dot (tl a) (rev (take n y))
        = (\<Sum>j\<in>{1..<length a}. if j \<le> n then a ! j * y ! (n - j) else 0)"
    by (simp only: la)
  show ?thesis unfolding y_def[symmetric] by (simp only: eq fb fa)
qed

subsection \<open>A run of the whole script\<close>

lemma main_report_zeros:
  "main_report butter_unit [0, 0, 0, 0] [0, 0, 0, 0] [0, 0, 0, 0] = Inr (25, 750)"
proof -
  have m: "calculate_magnitude [0, 0, 0, 0] [0, 0, 0, 0] [0, 0, 0, 0] = Inr [0, 0, 0, 0]"
    by (simp add: calculate_magnitude_def np_add_def np_broadcast_def np_square_def np_sqrt_def)
  have d: "butter_bandpass butter_unit [1 / 2, 3] 100 5 = Inr ([1], [1])"
    by (simp add: butter_bandpass_def py_index_def py_div_def butter_unit_def)
  have f: "apply_filter [0, 0, 0, 0] [1] [1] = Inr [0, 0, 0, 0]"
    by (simp add: apply_filter_def lfilter_def dot_def)
  have s: "stft_analysis [0, 0, 0, 0] 100 = Inr 25"
    using stft_analysis_zeros[of 4 100] by (simp add: numeral_eq_Suc)
  show ?thesis
    by (simp add: main_report_def m d f s calculate_heart_rate_def)
qed

section \<open>Magnitude reduction\<close>

text \<open>
  C2. For three channels of one length \<open>N \<ge> 1\<close> the magnitude reducer returns a signal
  of length \<open>N\<close> whose element \<open>i\<close> is \<open>sqrt (x[i]\<^sup>2 + y[i]\<^sup>2 + z[i]\<^sup>2)\<close>, and every
  element is non-negative.
\<close>

theorem calculate_magnitude_spec:
  assumes "length x = length y" and "length y = length z" and "1 \<le> length x"
  shows "\<exists>m. calculate_magnitude x y z = Inr m \<and> length m = length x
           \<and> (\<forall>i<length x. m ! i = sqrt ((x ! i)\<^sup>2 + (y ! i)\<^sup>2 + (z ! i)\<^sup>2) \<and> 0 \<le> m ! i)"
proof -
  define m where "m = np_sqrt (map2 (+) (map2 (+) (np_square x) (np_square y)) (np_square z))"
  have run: "calculate_magnitude x y z = Inr m"
    using assms by (simp add: calculate_magnitude_def np_add_same np_square_def m_def)
  have len: "length m = length x"
    using assms by (simp add: m_def np_sqrt_def np_square_def)
  have val: "m ! i = sqrt ((x ! i)\<^sup>2 + (y ! i)\<^sup>2 + (z ! i)\<^sup>2)" if "i < length x" for i
    using that assms by (simp add: m_def np_sqrt_def np_square_def)
  have "0 \<le> m ! i" if "i < length x" for i
    using val[OF that] by simp
  with run len val show ?thesis by blast
qed

theorem calculate_magnitude_spec_witness:
  "\<exists>m. calculate_magnitude [3, 0] [4, 0] [0, 1] = Inr m \<and> length m = length [3, 0 :: real]
     \<and> (\<forall>i<length [3, 0 :: real]. m ! i = sqrt (([3, 0] ! i)\<^sup>2 + ([4, 0] ! i)\<^sup>2 + ([0, 1] ! i)\<^sup>2)
            \<and> 0 \<le> m ! i)"
  using calculate_magnitude_spec[of "[3, 0]" "[4, 0]" "[0, 1]"] by simp

text \<open>
  C4, as amended. The magnitude reducer fails exactly when two of the three channel
  lengths differ and neither of the two is 1, and the error is then NumPy's
  \<open>ValueError\<close>, never \<open>ShapeMismatchError\<close>; all other triplets, the empty ones
  included, produce a signal.
\<close>

theorem calculate_magnitude_failure:
  "calculate_magnitude x y z = Inl e \<longleftrightarrow>
     e = ValueError
     \<and> ((length x \<noteq> length y \<and> length x \<noteq> 1 \<and> length y \<noteq> 1)
        \<or> (length x \<noteq> length z \<and> length x \<noteq> 1 \<and> length z \<noteq> 1)
        \<or> (length y \<noteq> length z \<and> length y \<noteq> 1 \<and> length z \<noteq> 1))"
proof (cases "np_add (np_square x) (np_square y)")
  case (Inl e')
  then have "e' = ValueError \<and> length x \<noteq> length y \<and> length x \<noteq> 1 \<and> length y \<noteq> 1"
    by (simp add: np_add_def np_broadcast_error np_square_def)
  moreover have "calculate_magnitude x y z = Inl e'"
    using Inl by (simp add: calculate_magnitude_def)
  ultimately show ?thesis by auto
next
  case (Inr xy)
  then have ok: "length x = length y \<or> length x = 1 \<or> length y = 1"
    by (auto simp: np_add_def np_broadcast_def np_square_def split: if_splits)
  have lxy: "length xy = (if length x = 1 then length y else length x)"
    using np_broadcast_length[of "(+)" "np_square x" "np_square y" xy] Inr
    by (simp add: np_add_def np_square_def)
  show ?thesis
  proof (cases "np_add xy (np_square z)")
    case (Inl e')
    then have "e' = ValueError \<and> length xy \<noteq> length z \<and> length xy \<noteq> 1 \<and> length z \<noteq> 1"
      by (simp add: np_add_def np_broadcast_error np_square_def)
    moreover have "calculate_magnitude x y z = Inl e'"
      using Inl \<open>np_add (np_square x) (np_square y) = Inr xy\<close>
      by (simp add: calculate_magnitude_def)
    ultimately show ?thesis using lxy ok by (auto split: if_splits)
  next
    case (Inr xyz)
    then have "length xy = length z \<or> length xy = 1 \<or> length z = 1"
      by (auto simp: np_add_def np_broadcast_def np_square_def split: if_splits)
    moreover have "calculate_magnitude x y z = Inr (np_sqrt xyz)"
      using Inr \<open>np_add (np_square x) (np_square y) = Inr xy\<close>
      by (simp add: calculate_magnitude_def)
    ultimately show ?thesis using lxy ok by (auto split: if_splits)
  qed
qed

theorem calculate_magnitude_failure_witness:
  "calculate_magnitude [1, 2] [1, 2, 3] [1, 2] = Inl ValueError"
  using calculate_magnitude_failure[of "[1, 2]" "[1, 2, 3]" "[1, 2]" ValueError] by simp

text \<open>
  Three empty channels give the empty signal, a channel of length one is broadcast
  against channels of length two, and unequal lengths that do fail do not fail with
  \<open>ShapeMismatchError\<close>.
\<close>

theorem calculate_magnitude_lengths_counterexample:
  "calculate_magnitude [] [] [] = Inr []
   \<and> calculate_magnitude [1] [0, 0] [0, 0] = Inr [1, 1]
   \<and> calculate_magnitude [1, 2] [1, 2, 3] [1, 2] \<noteq> Inl ShapeMismatchError"
  by (simp add: calculate_magnitude_def np_add_def np_broadcast_def np_square_def np_sqrt_def)

section \<open>Band-pass filter\<close>

text \<open>
  C5, as amended. The design operation validates nothing itself. At \<open>fs \<noteq> 0\<close> it
  returns what the Butterworth design returns, coefficients or error, for the given order
  and the band divided by the Nyquist frequency \<open>fs / 2\<close>; at \<open>fs = 0\<close> it fails with
  \<open>ZeroDivisionError\<close>; and it fails with \<open>InvalidBandError\<close> only if the Butterworth
  design itself does.
\<close>

theorem butter_bandpass_normalised:
  "(fs \<noteq> 0 \<longrightarrow> butter_bandpass butter [low_hz, high_hz] fs order
                  = butter order [low_hz / (fs / 2), high_hz / (fs / 2)])
   \<and> (fs = 0 \<longrightarrow> butter_bandpass butter [low_hz, high_hz] fs order = Inl ZeroDivisionError)
   \<and> ((\<forall>n Wn. butter n Wn \<noteq> Inl InvalidBandError)
        \<longrightarrow> butter_bandpass butter cutoff fs order \<noteq> Inl InvalidBandError)"
  by (auto simp: butter_bandpass_def py_index_def py_div_def bind_err_def Let_def)

theorem butter_bandpass_normalised_witness:
  "butter_bandpass butter_unit [0.5, 3] 100 5 = butter_unit 5 [0.5 / (100 / 2), 3 / (100 / 2)]
   \<and> butter_bandpass butter_unit [0.5, 3] 100 5 \<noteq> Inl InvalidBandError"
  using butter_bandpass_normalised[of 100 butter_unit "0.5" 3 5 "[0.5, 3]"]
  by (simp add: butter_unit_def)

text \<open>
  A sample rate of zero violates \<open>high_hz < fs / 2\<close>, and the failure is the division's.
\<close>

theorem butter_bandpass_zero_rate_counterexample:
  "butter_bandpass butter_unit [0.5, 3] 0 5 = Inl ZeroDivisionError"
  by (simp add: butter_bandpass_def py_index_def py_div_def bind_err_def)

text \<open>
  C9. With coefficients that define a filter (\<open>a\<close> and \<open>b\<close> non-empty, \<open>a[0] \<noteq> 0\<close>) the
  apply operation returns a signal of the input's length that satisfies the difference
  equation of the linear recursive filter, and it is causal, one pass from the first
  sample to the last: filtering a prefix of the input gives the same prefix of the
  output, which no forward-backward pass does.
\<close>

theorem apply_filter_causal:
  assumes "a \<noteq> []" and "b \<noteq> []" and "hd a \<noteq> 0"
  shows "\<exists>y. apply_filter data b a = Inr y \<and> length y = length data
           \<and> (\<forall>n<length data.
                 hd a * y ! n
                 = (\<Sum>i<length b. if i \<le> n then b ! i * data ! (n - i) else 0)
                   - (\<Sum>j\<in>{1..<length a}. if j \<le> n then a ! j * y ! (n - j) else 0))
           \<and> (\<forall>m. apply_filter (take m data) b a = Inr (take m y))"
proof -
  define y where "y = lfilter_run b a [] [] data"
  have run: "apply_filter data b a = Inr y"
    using assms by (simp add: apply_filter_def lfilter_def y_def)
  have len: "length y = length data" by (simp add: y_def lfilter_run_length)
  have eqn: "\<forall>n<length data.
                 hd a * y ! n
                 = (\<Sum>i<length b. if i \<le> n then b ! i * data ! (n - i) else 0)
                   - (\<Sum>j\<in>{1..<length a}. if j \<le> n then a ! j * y ! (n - j) else 0)"
    unfolding y_def using lfilter_difference_equation[OF assms(1,3)] by blast
  have pre: "\<forall>m. apply_filter (take m data) b a = Inr (take m y)"
    using assms by (simp add: apply_filter_def lfilter_def y_def lfilter_run_take)
  from run len eqn pre show ?thesis by blast
qed

theorem apply_filter_causal_witness:
  "\<exists>y. apply_filter [1, 2, 3] [1, 1] [2, 1] = Inr y \<and> length y = length [1, 2, 3 :: real]
           \<and> (\<forall>n<length [1, 2, 3 :: real].
                 hd [2, 1 :: real] * y ! n
                 = (\<Sum>i<length [1, 1 :: real]. if i \<le> n then [1, 1] ! i * [1, 2, 3] ! (n - i) else 0)
                   - (\<Sum>j\<in>{1..<length [2, 1 :: real]}. if j \<le> n then [2, 1] ! j * y ! (n - j) else 0))
           \<and> (\<forall>m. apply_filter (take m [1, 2, 3]) [1, 1] [2, 1] = Inr (take m y))"
proof -
  have h1: "[2, 1 :: real] \<noteq> []" by simp
  have h2: "[1, 1 :: real] \<noteq> []" by simp
  have h3: "hd [2, 1 :: real] \<noteq> 0" by simp
  show ?thesis by (rule apply_filter_causal[OF h1 h2 h3])
qed

section \<open>Spectral peak extraction\<close>

text \<open>
  C1, as amended. For every signal of length \<open>N \<ge> 4\<close> and sample rate \<open>fs \<noteq> 0\<close> the
  spectral peak extractor returns \<open>k * fs / N\<close> for an index \<open>k\<close> in \<open>[1, N div 2 - 1]\<close>
  whose magnitude, in the transform of the Hamming-windowed signal, is maximal over that
  range; index 0 is never selected.
\<close>

theorem stft_analysis_peak:
  assumes "4 \<le> length data" and "fs \<noteq> 0"
  shows "\<exists>k. 1 \<le> k \<and> k \<le> length data div 2 - 1
           \<and> (\<forall>j. 1 \<le> j \<and> j \<le> length data div 2 - 1
                  \<longrightarrow> spec_magnitude data j \<le> spec_magnitude data k)
           \<and> stft_analysis data fs = Inr (real k * fs / real (length data))"
  using stft_analysis_long[OF assms] by blast

theorem stft_analysis_peak_witness:
  "\<exists>k. 1 \<le> k \<and> k \<le> length [1, 2, 3, 4, 5, 6 :: real] div 2 - 1
           \<and> (\<forall>j. 1 \<le> j \<and> j \<le> length [1, 2, 3, 4, 5, 6 :: real] div 2 - 1
                  \<longrightarrow> spec_magnitude [1, 2, 3, 4, 5, 6] j \<le> spec_magnitude [1, 2, 3, 4, 5, 6] k)
           \<and> stft_analysis [1, 2, 3, 4, 5, 6] 100 = Inr (real k * 100 / real (length [1, 2, 3, 4, 5, 6 :: real]))"
  using stft_analysis_peak[of "[1, 2, 3, 4, 5, 6]" 100] by simp

text \<open>
  At \<open>N = 2\<close> the first \<open>N div 2\<close> bins hold the zero-frequency bin only, the search
  range is empty and \<^verbatim>\<open>np.argmax\<close> raises.
\<close>

theorem stft_analysis_two_samples_counterexample:
  "stft_analysis [1, 1] 100 = Inl ValueError"
  using stft_analysis_short[of "[1, 1]" 100] by simp

text \<open>
  C3, as amended. The extractor never fails with \<open>InsufficientSamplesError\<close>. It
  raises \<open>ValueError\<close> on an empty signal, \<open>ZeroDivisionError\<close> on a non-empty
  signal at \<open>fs = 0\<close>, \<open>ValueError\<close> on every signal of fewer than four samples at
  \<open>fs \<noteq> 0\<close>, and it returns a frequency for every signal of at least four samples at
  \<open>fs \<noteq> 0\<close>.
\<close>

theorem stft_analysis_failure:
  "(data = [] \<longrightarrow> stft_analysis data fs = Inl ValueError)
   \<and> (data \<noteq> [] \<and> fs = 0 \<longrightarrow> stft_analysis data fs = Inl ZeroDivisionError)
   \<and> (length data < 4 \<and> fs \<noteq> 0 \<longrightarrow> stft_analysis data fs = Inl ValueError)
   \<and> (4 \<le> length data \<and> fs \<noteq> 0 \<longrightarrow> (\<exists>f. stft_analysis data fs = Inr f))
   \<and> stft_analysis data fs \<noteq> Inl InsufficientSamplesError"
proof -
  have a: "data = [] \<longrightarrow> stft_analysis data fs = Inl ValueError"
    by (cases "fs = 0") (auto simp: stft_analysis_fs_zero stft_analysis_short)
  have b: "data \<noteq> [] \<and> fs = 0 \<longrightarrow> stft_analysis data fs = Inl ZeroDivisionError"
    by (auto simp: stft_analysis_fs_zero)
  have c: "length data < 4 \<and> fs \<noteq> 0 \<longrightarrow> stft_analysis data fs = Inl ValueError"
    by (auto simp: stft_analysis_short)
  have d: "4 \<le> length data \<and> fs \<noteq> 0 \<longrightarrow> (\<exists>f. stft_analysis data fs = Inr f)"
    using stft_analysis_long[of data fs] by blast
  have e: "stft_analysis data fs \<noteq> Inl InsufficientSamplesError"
  proof (cases "fs = 0")
    case True
    then show ?thesis by (simp add: stft_analysis_fs_zero)
  next
    case False
    show ?thesis
    proof (cases "length data < 4")
      case True
      then show ?thesis using False by (simp add: stft_analysis_short)
    next
      case False
      then show ?thesis using d \<open>fs \<noteq> 0\<close> by auto
    qed
  qed
  from a b c d e show ?thesis by blast
qed

theorem stft_analysis_failure_witness:
  "(\<exists>f. stft_analysis [1, 2, 3, 4, 5] 100 = Inr f)
   \<and> stft_analysis [1, 2, 3, 4, 5] 100 \<noteq> Inl InsufficientSamplesError"
  using stft_analysis_failure[of "[1, 2, 3, 4, 5]" 100] by simp

text \<open>
  Signals of three samples and of one sample: the first is rejected although it has
  two samples or more, and neither is rejected with \<open>InsufficientSamplesError\<close>.
\<close>

theorem stft_analysis_short_counterexample:
  "stft_analysis [1, 2, 3] 100 = Inl ValueError \<and> stft_analysis [1] 100 = Inl ValueError"
  using stft_analysis_short[of "[1, 2, 3]" 100] stft_analysis_short[of "[1]" 100] by simp

text \<open>
  C6. Among the bins of maximal magnitude the extractor returns the one of lowest
  index: every searched bin below the returned one is strictly smaller. A signal that is
  zero after windowing therefore yields bin 1, the frequency \<open>fs / N\<close>, and no error; the
  flat-zero signal of a hundred samples at \<open>fs = 100\<close> yields \<open>1\<close> Hz.
\<close>

theorem stft_analysis_tie_break:
  assumes "4 \<le> length data" and "fs \<noteq> 0"
  shows "(\<exists>k. stft_analysis data fs = Inr (real k * fs / real (length data))
            \<and> 1 \<le> k \<and> k \<le> length data div 2 - 1
            \<and> (\<forall>j. 1 \<le> j \<and> j \<le> length data div 2 - 1
                   \<longrightarrow> spec_magnitude data j \<le> spec_magnitude data k)
            \<and> (\<forall>j. 1 \<le> j \<and> j < k \<longrightarrow> spec_magnitude data j < spec_magnitude data k))
         \<and> ((\<forall>n<length data. data ! n * spec_window (length data) n = 0)
               \<longrightarrow> stft_analysis data fs = Inr (fs / real (length data)))"
  using stft_analysis_long[OF assms] stft_analysis_flat[OF assms] by blast

theorem stft_analysis_tie_break_witness:
  "stft_analysis (replicate 100 0) 100 = Inr 1"
  using stft_analysis_tie_break[of "replicate 100 0" 100] by simp

text \<open>
  C10. On a signal of length \<open>N \<ge> 4\<close>, a returned dominant frequency is \<open>k * fs / N\<close> for
  an integer \<open>1 \<le> k \<le> N div 2 - 1\<close>; at a positive sample rate it is therefore strictly
  positive and strictly below the Nyquist frequency \<open>fs / 2\<close>.
\<close>

theorem stft_analysis_range:
  assumes "4 \<le> length data" and "stft_analysis data fs = Inr f"
  shows "\<exists>k. 1 \<le> k \<and> k \<le> length data div 2 - 1
           \<and> f = real k * fs / real (length data)
           \<and> (0 < fs \<longrightarrow> 0 < f \<and> f < fs / 2)"
proof -
  define N where "N = length data"
  have N4: "4 \<le> N" using assms(1) by (simp add: N_def)
  have fs0: "fs \<noteq> 0"
  proof
    assume "fs = 0"
    then show False using assms by (auto simp: stft_analysis_fs_zero split: if_splits)
  qed
  obtain k where k: "stft_analysis data fs = Inr (real k * fs / real N)"
    "1 \<le> k" "k \<le> N div 2 - 1"
    using stft_analysis_long[OF assms(1) fs0] unfolding N_def by blast
  have f: "f = real k * fs / real N" using k(1) assms(2) by simp
  have "2 * k + 2 \<le> N" using k(3) N4 by linarith
  then have kN: "2 * real k < real N" by linarith
  have Npos: "0 < real N" using N4 by simp
  have bounds: "0 < f \<and> f < fs / 2" if fs: "0 < fs"
  proof -
    have pos: "0 < f" using f k(2) fs N4 by simp
    have "real k * fs < fs * real N / 2"
      using kN fs by (simp add: field_simps)
    then have "real k * fs / real N < (fs * real N / 2) / real N"
      using Npos by (rule divide_strict_right_mono)
    then have "f < fs / 2" using Npos f by simp
    with pos show ?thesis by simp
  qed
  with f k(2,3) show ?thesis unfolding N_def by blast
qed

theorem stft_analysis_range_witness:
  "stft_analysis [0, 0, 0, 0] 100 = Inr 25
   \<and> (\<exists>k. 1 \<le> k \<and> k \<le> length [0, 0, 0, 0 :: real] div 2 - 1
           \<and> (25 :: real) = real k * 100 / real (length [0, 0, 0, 0 :: real])
           \<and> (0 :: real) < 25 \<and> (25 :: real) < 100 / 2)"
proof -
  have run: "stft_analysis [0, 0, 0, 0] 100 = Inr 25"
    using stft_analysis_zeros[of 4 100] by (simp add: numeral_eq_Suc)
  have len: "4 \<le> length [0, 0, 0, 0 :: real]" by simp
  from stft_analysis_range[OF len run] run show ?thesis by simp
qed

section \<open>Rate conversion\<close>

text \<open>
  C7. The rate converter is total and multiplies by sixty: \<open>convert 0 = 0\<close>,
  \<open>convert 1 = 60\<close>, no input (negative ones included) is rejected, and the function is
  linear.
\<close>

theorem calculate_heart_rate_linear:
  "calculate_heart_rate 0 = 0
   \<and> calculate_heart_rate 1 = 60
   \<and> (\<forall>f. calculate_heart_rate f = f * 60)
   \<and> (\<forall>f g. calculate_heart_rate (f + g) = calculate_heart_rate f + calculate_heart_rate g)
   \<and> (\<forall>c f. calculate_heart_rate (c * f) = c * calculate_heart_rate f)"
  by (simp add: calculate_heart_rate_def algebra_simps)

section \<open>The reported heart rate\<close>

text \<open>
  C8. Whenever the script reports, the heart-rate figure it prints is the dominant
  frequency times 60 divided by 2: the rate converter's output, halved once at the
  report step.
\<close>

theorem main_report_halves:
  assumes "main_report butter x y z = Inr (dominant_frequency, reported)"
  shows "reported = dominant_frequency * 60 / 2
         \<and> reported = calculate_heart_rate dominant_frequency / 2"
  using assms
  by (auto simp: main_report_def bind_err_def calculate_heart_rate_def Let_def
           split: sum.splits prod.splits)

theorem main_report_halves_witness:
  "main_report butter_unit [0, 0, 0, 0] [0, 0, 0, 0] [0, 0, 0, 0] = Inr (25, 750)
   \<and> (750 :: real) = 25 * 60 / 2 \<and> (750 :: real) = calculate_heart_rate 25 / 2"
  using main_report_halves[OF main_report_zeros] main_report_zeros by simp

end
